theory Spec2Isabelle
  imports Main
begin

section \<open>Data model (lib/types.ts and the sales team schema of lib/lead-routing.ts)\<close>

datatype QualificationCategory =
  HOT_LEAD | QUALIFIED | WARM_LEAD | FOLLOW_UP | COLD_LEAD | UNQUALIFIED | SUPPORT | PARTNER

datatype LeadPriority = URGENT | HIGH | MEDIUM | LOW

datatype Industry =
  TECHNOLOGY | FINANCE | HEALTHCARE | RETAIL | MANUFACTURING | EDUCATION | GOVERNMENT
  | NONPROFIT | OTHER

datatype CompanySize = ENTERPRISE | MID_MARKET | SMB | STARTUP | UNKNOWN

datatype Role = SDR | AE | ENTERPRISE_AE | TEAM_LEAD

text \<open>
  \<open>emailTemplateTypeSchema\<close>. Its member \<open>FOLLOW_UP\<close> has the name of a qualification
  category, so it carries a suffix here.
\<close>

datatype EmailTemplateType =
  HOT_LEAD_RESPONSE | QUALIFIED_RESPONSE | FOLLOW_UP_TEMPLATE | NURTURE | SUPPORT_REDIRECT
  | PARTNER_OUTREACH | COLD_OUTREACH

text \<open>
  A TypeScript \<open>number\<close> is read by the routing code only through \<open>x || 0\<close>, \<open>!x\<close> and
  \<open><\<close>. The type \<open>'n\<close> of numbers is any linear order with a zero. An optional field is
  an \<open>option\<close>; \<open>NaN\<close> is falsy, so the code reads it exactly as a missing value and it is
  \<open>None\<close> here.
\<close>

record 'n SalesTeamMember =
  id' :: string
  name :: string
  email :: string
  role :: Role
  territories :: "string list option"
  industries :: "Industry list option"
  companySizes :: "CompanySize list option"
  maxActiveLeads :: "'n option"
  currentLeadCount :: "'n option"

record 'n Qualification =
  category :: QualificationCategory
  priority :: LeadPriority
  leadScore :: 'n
  reason :: string
  industry :: "Industry option"
  companySize :: "CompanySize option"
  estimatedDealValue :: "string option"
  nextSteps :: "string list"
  assignedTo :: "string option"

text \<open>
  The object returned by \<open>getRoutingRecommendation\<close>, \<open>{ assignedTo, reason }\<close>; the
  field names carry a suffix to keep them apart from those of the qualification.
\<close>

record 'n RoutingRecommendation =
  assignedTo_rec :: "'n SalesTeamMember option"
  reason_rec :: string

section \<open>The routing engine (class LeadRouter)\<close>

text \<open>\<open>x || 0\<close> on an optional number.\<close>

definition orZero :: "'n::{zero,linorder} option \<Rightarrow> 'n" where
  "orZero x = (case x of None \<Rightarrow> 0 | Some v \<Rightarrow> (if v = 0 then 0 else v))"

text \<open>\<open>member.industries?.includes(industry)\<close>, read as a condition.\<close>

definition includesIndustry :: "'n SalesTeamMember \<Rightarrow> Industry \<Rightarrow> bool" where
  "includesIndustry member i =
     (case industries member of None \<Rightarrow> False | Some is \<Rightarrow> i \<in> set is)"

text \<open>The callback of \<open>reduce\<close> in \<open>findLeastBusyRep\<close>.\<close>

definition leastBusy :: "'n::{zero,linorder} SalesTeamMember \<Rightarrow> 'n SalesTeamMember \<Rightarrow> 'n SalesTeamMember" where
  "leastBusy prev current =
     (let prevCount = orZero (currentLeadCount prev);
          currentCount = orZero (currentLeadCount current)
      in if prevCount < currentCount then prev else current)"

text \<open>
  \<open>findLeastBusyRep(team)\<close>: \<open>null\<close> on an empty team, otherwise \<open>team.reduce\<close> with no
  initial value, which starts from the first element and folds the rest from the left.
\<close>

definition findLeastBusyRep :: "'n::{zero,linorder} SalesTeamMember list \<Rightarrow> 'n SalesTeamMember option" where
  "findLeastBusyRep team =
     (case team of [] \<Rightarrow> None | first # rest \<Rightarrow> Some (foldl leastBusy first rest))"

text \<open>The two local constants of the \<open>find\<close> callback in \<open>findBestEnterpriseAE\<close>.\<close>

definition hasIndustryMatch :: "'n Qualification \<Rightarrow> 'n SalesTeamMember \<Rightarrow> bool" where
  "hasIndustryMatch qualification ae =
     (case industry qualification of None \<Rightarrow> False | Some i \<Rightarrow> includesIndustry ae i)"

definition hasCapacity :: "'n::{zero,linorder} SalesTeamMember \<Rightarrow> bool" where
  "hasCapacity ae =
     (case maxActiveLeads ae of
        None \<Rightarrow> True
      | Some m \<Rightarrow> m = 0 \<or> orZero (currentLeadCount ae) < m)"

definition findBestEnterpriseAE ::
  "'n::{zero,linorder} SalesTeamMember list \<Rightarrow> 'n Qualification \<Rightarrow> 'n SalesTeamMember option" where
  "findBestEnterpriseAE salesTeam qualification =
     (let enterpriseAEs = filter (\<lambda>member. role member = ENTERPRISE_AE) salesTeam
      in if enterpriseAEs = [] then None
         else
           (case List.find (\<lambda>ae. hasIndustryMatch qualification ae \<and> hasCapacity ae) enterpriseAEs of
              Some match \<Rightarrow> Some match
            | None \<Rightarrow> findLeastBusyRep enterpriseAEs))"

definition findIndustryExpert ::
  "'n::{zero,linorder} SalesTeamMember list \<Rightarrow> Industry \<Rightarrow> 'n SalesTeamMember option" where
  "findIndustryExpert salesTeam i =
     (let experts = filter (\<lambda>member. includesIndustry member i) salesTeam
      in if experts = [] then None else findLeastBusyRep experts)"

text \<open>
  \<open>routeLead\<close>. The router's \<open>this.salesTeam\<close> is the first argument. The four rules are
  tried in the order of the source; a \<open>null\<close> from the first and the third falls through.
\<close>

definition routeLead ::
  "'n::{zero,linorder} SalesTeamMember list \<Rightarrow> 'n Qualification \<Rightarrow> 'n SalesTeamMember option" where
  "routeLead salesTeam qualification =
     (if salesTeam = [] then None
      else
        (case (if category qualification = HOT_LEAD \<or> priority qualification = URGENT
               then findBestEnterpriseAE salesTeam qualification else None) of
           Some enterpriseAE \<Rightarrow> Some enterpriseAE
         | None \<Rightarrow>
             if companySize qualification = Some ENTERPRISE
             then findBestEnterpriseAE salesTeam qualification
             else
               (case (case industry qualification of
                        None \<Rightarrow> None
                      | Some i \<Rightarrow> findIndustryExpert salesTeam i) of
                  Some industryExpert \<Rightarrow> Some industryExpert
                | None \<Rightarrow> findLeastBusyRep salesTeam)))"

text \<open>The strings that the template literals interpolate.\<close>

fun roleString :: "Role \<Rightarrow> string" where
  "roleString SDR = ''SDR''"
| "roleString AE = ''AE''"
| "roleString ENTERPRISE_AE = ''ENTERPRISE_AE''"
| "roleString TEAM_LEAD = ''TEAM_LEAD''"

fun industryString :: "Industry \<Rightarrow> string" where
  "industryString TECHNOLOGY = ''TECHNOLOGY''"
| "industryString FINANCE = ''FINANCE''"
| "industryString HEALTHCARE = ''HEALTHCARE''"
| "industryString RETAIL = ''RETAIL''"
| "industryString MANUFACTURING = ''MANUFACTURING''"
| "industryString EDUCATION = ''EDUCATION''"
| "industryString GOVERNMENT = ''GOVERNMENT''"
| "industryString NONPROFIT = ''NONPROFIT''"
| "industryString OTHER = ''OTHER''"

text \<open>
  The reason that \<open>getRoutingRecommendation\<close> builds for an assigned member: the
  \<open>let reason = ...\<close> and the \<open>if\<close> chain that appends to it.
\<close>

definition recommendationReason :: "'n Qualification \<Rightarrow> 'n SalesTeamMember \<Rightarrow> string" where
  "recommendationReason qualification w =
     (let reason0 = ''Assigned to '' @ name w @ '' ('' @ roleString (role w) @ '')'' in
      if category qualification = HOT_LEAD
      then reason0 @ '' - Hot lead requires enterprise AE''
      else if companySize qualification = Some ENTERPRISE
      then reason0 @ '' - Enterprise account''
      else
        (case industry qualification of
           Some i \<Rightarrow>
             if includesIndustry w i
             then reason0 @ '' - Industry expertise: '' @ industryString i
             else reason0 @ '' - Best available capacity''
         | None \<Rightarrow> reason0 @ '' - Best available capacity''))"

definition getRoutingRecommendation ::
  "'n::{zero,linorder} SalesTeamMember list \<Rightarrow> 'n Qualification \<Rightarrow> 'n RoutingRecommendation" where
  "getRoutingRecommendation salesTeam qualification =
     (case routeLead salesTeam qualification of
        None \<Rightarrow>
          \<lparr>assignedTo_rec = None,
           reason_rec = ''No sales team configured. Please assign manually.''\<rparr>
      | Some w \<Rightarrow>
          \<lparr>assignedTo_rec = Some w, reason_rec = recommendationReason qualification w\<rparr>)"

text \<open>\<open>defaultSalesTeam\<close>, the team the global router is constructed with.\<close>

definition defaultSalesTeam :: "int SalesTeamMember list" where
  "defaultSalesTeam =
     [\<lparr>id' = ''ae-1'', name = ''Sarah Chen'', email = ''sarah.chen@company.com'',
       role = ENTERPRISE_AE, territories = None, industries = Some [TECHNOLOGY, FINANCE],
       companySizes = Some [ENTERPRISE, MID_MARKET], maxActiveLeads = Some 15,
       currentLeadCount = Some 8\<rparr>,
      \<lparr>id' = ''ae-2'', name = ''Michael Rodriguez'', email = ''michael.rodriguez@company.com'',
       role = ENTERPRISE_AE, territories = None, industries = Some [HEALTHCARE, FINANCE],
       companySizes = Some [ENTERPRISE, MID_MARKET], maxActiveLeads = Some 15,
       currentLeadCount = Some 12\<rparr>,
      \<lparr>id' = ''ae-3'', name = ''David Kim'', email = ''david.kim@company.com'',
       role = AE, territories = None, industries = Some [TECHNOLOGY, RETAIL],
       companySizes = Some [MID_MARKET, SMB], maxActiveLeads = Some 25,
       currentLeadCount = Some 18\<rparr>,
      \<lparr>id' = ''sdr-1'', name = ''Emily Johnson'', email = ''emily.johnson@company.com'',
       role = SDR, territories = None, industries = Some [TECHNOLOGY, EDUCATION],
       companySizes = Some [SMB, STARTUP], maxActiveLeads = Some 40,
       currentLeadCount = Some 25\<rparr>,
      \<lparr>id' = ''sdr-2'', name = ''James Wilson'', email = ''james.wilson@company.com'',
       role = SDR, territories = None, industries = Some [RETAIL, MANUFACTURING],
       companySizes = Some [SMB, STARTUP], maxActiveLeads = Some 40,
       currentLeadCount = Some 30\<rparr>]"

section \<open>The inbound workflow (workflows/inbound, lib/services.ts)\<close>

record FormSchema =
  email_form :: string
  name_form :: string
  phone :: "string option"
  company :: "string option"
  message :: string

text \<open>The object that \<open>workflowInbound\<close> returns; fields shared with the qualification carry a suffix.\<close>

record 'n InboundSummary =
  leadName :: string
  leadEmail :: string
  category_out :: QualificationCategory
  priority_out :: LeadPriority
  leadScore_out :: 'n
  estimatedValue :: "string option"
  nextSteps_out :: "string list"
  assignedTo_out :: "string option"

text \<open>A rejected promise: the error a step or a service throws.\<close>

datatype StepFailure = StepFailure string

text \<open>
  The services outside the repository that the steps await: the research agent, the
  three language-model calls of \<open>enrichLead\<close>, \<open>qualify\<close> and
  \<open>generateFollowUpSequence\<close>, the text generation of \<open>writeEmail\<close> (which receives the
  template type in its prompt), the Slack client, and whether both Slack environment
  variables are set. Each answers or fails. The enrichment record is only handed from one
  step to the next, so its type is the parameter \<open>'e\<close>; the follow-up service stands for
  the model call together with the formatting of its answer into texts.
\<close>

record ('n, 'e) Services =
  researchAgent_generate :: "FormSchema \<Rightarrow> StepFailure + string"
  generateObject_enrichment :: "FormSchema \<Rightarrow> string \<Rightarrow> StepFailure + 'e"
  generateObject_qualification ::
    "FormSchema \<Rightarrow> string \<Rightarrow> 'e \<Rightarrow> StepFailure + 'n Qualification"
  generateText_email ::
    "FormSchema \<Rightarrow> string \<Rightarrow> 'n Qualification \<Rightarrow> 'e \<Rightarrow> EmailTemplateType \<Rightarrow> StepFailure + string"
  generateObject_followUps ::
    "FormSchema \<Rightarrow> 'n Qualification \<Rightarrow> 'e \<Rightarrow> string list \<Rightarrow> StepFailure + string list"
  slackConfigured :: bool
  sendSlackMessageWithButtons ::
    "FormSchema \<Rightarrow> string \<Rightarrow> string \<Rightarrow> 'n Qualification \<Rightarrow> 'e \<Rightarrow> StepFailure + string"

text \<open>
  What a run does is recorded as the list of the calls it makes, in order: the six steps
  of the workflow, the consultation of the routing engine inside \<open>qualify\<close>, the text
  generation with the template type it is given, and the Slack message.
\<close>

datatype Call =
  StepResearch | StepEnrichment | StepQualify | StepWriteEmail
  | StepGenerateFollowUpSequence | StepHumanFeedback
  | GetRoutingRecommendation | GenerateText EmailTemplateType | SendSlackMessage

type_synonym 'a run = "Call list \<times> (StepFailure + 'a)"

text \<open>A value; an awaited service; a recorded call around a body; and sequencing, where a failure ends the run.\<close>

definition ret :: "'a \<Rightarrow> 'a run" where
  "ret x = ([], Inr x)"

definition await :: "StepFailure + 'a \<Rightarrow> 'a run" where
  "await r = ([], r)"

definition invoke :: "Call \<Rightarrow> 'a run \<Rightarrow> 'a run" where
  "invoke c body = (c # fst body, snd body)"

definition andThen :: "'a run \<Rightarrow> ('a \<Rightarrow> 'b run) \<Rightarrow> 'b run" where
  "andThen m f =
     (case snd m of
        Inl e \<Rightarrow> (fst m, Inl e)
      | Inr x \<Rightarrow> (fst m @ fst (f x), snd (f x)))"

text \<open>\<open>getEmailTemplateType\<close>: the \<open>switch\<close> on the category, with its \<open>default\<close>.\<close>

definition getEmailTemplateType :: "'n Qualification \<Rightarrow> EmailTemplateType" where
  "getEmailTemplateType qualification =
     (case category qualification of
        HOT_LEAD \<Rightarrow> HOT_LEAD_RESPONSE
      | QUALIFIED \<Rightarrow> QUALIFIED_RESPONSE
      | WARM_LEAD \<Rightarrow> QUALIFIED_RESPONSE
      | FOLLOW_UP \<Rightarrow> FOLLOW_UP_TEMPLATE
      | SUPPORT \<Rightarrow> SUPPORT_REDIRECT
      | PARTNER \<Rightarrow> PARTNER_OUTREACH
      | _ \<Rightarrow> NURTURE)"

definition enrichLead :: "('n, 'e) Services \<Rightarrow> FormSchema \<Rightarrow> string \<Rightarrow> 'e run" where
  "enrichLead svc lead research = await (generateObject_enrichment svc lead research)"

text \<open>
  \<open>qualify\<close>: the model's object, then the routing recommendation of the global router
  (constructed over \<open>salesTeam\<close>); when it names a member, \<open>object.assignedTo\<close> is
  overwritten. The module is part of the repository and the recommendation has no raising
  path, so the \<open>catch\<close> around it, which only logs, is never entered.
\<close>

definition qualify ::
  "('n::{zero,linorder}, 'e) Services \<Rightarrow> 'n SalesTeamMember list \<Rightarrow> FormSchema \<Rightarrow> string \<Rightarrow> 'e
     \<Rightarrow> 'n Qualification run" where
  "qualify svc salesTeam lead research enrichment =
     andThen (await (generateObject_qualification svc lead research enrichment)) (\<lambda>object.
     andThen (invoke GetRoutingRecommendation (ret (getRoutingRecommendation salesTeam object)))
       (\<lambda>routing.
     ret (case assignedTo_rec routing of
            Some w \<Rightarrow>
              object\<lparr>assignedTo :=
                Some (name w @ '' ('' @ email w @ '') - '' @ reason_rec routing)\<rparr>
          | None \<Rightarrow> object)))"

definition writeEmail ::
  "('n, 'e) Services \<Rightarrow> FormSchema \<Rightarrow> string \<Rightarrow> 'n Qualification \<Rightarrow> 'e \<Rightarrow> string run" where
  "writeEmail svc lead research qualification enrichment =
     (let templateType = getEmailTemplateType qualification
      in invoke (GenerateText templateType)
           (await (generateText_email svc lead research qualification enrichment templateType)))"

definition generateFollowUpSequence ::
  "('n, 'e) Services \<Rightarrow> FormSchema \<Rightarrow> 'n Qualification \<Rightarrow> 'e \<Rightarrow> string list \<Rightarrow> string list run" where
  "generateFollowUpSequence svc lead qualification enrichment previousEmails =
     await (generateObject_followUps svc lead qualification enrichment previousEmails)"

definition humanFeedback ::
  "('n, 'e) Services \<Rightarrow> FormSchema \<Rightarrow> string \<Rightarrow> string \<Rightarrow> 'n Qualification \<Rightarrow> 'e \<Rightarrow> string run" where
  "humanFeedback svc lead research email' qualification enrichment =
     invoke SendSlackMessage
       (await (sendSlackMessageWithButtons svc lead research email' qualification enrichment))"

text \<open>The steps of workflows/inbound/steps.ts.\<close>

definition stepResearch :: "('n, 'e) Services \<Rightarrow> FormSchema \<Rightarrow> string run" where
  "stepResearch svc data = invoke StepResearch (await (researchAgent_generate svc data))"

definition stepEnrichment :: "('n, 'e) Services \<Rightarrow> FormSchema \<Rightarrow> string \<Rightarrow> 'e run" where
  "stepEnrichment svc data research = invoke StepEnrichment (enrichLead svc data research)"

definition stepQualify ::
  "('n::{zero,linorder}, 'e) Services \<Rightarrow> 'n SalesTeamMember list \<Rightarrow> FormSchema \<Rightarrow> string \<Rightarrow> 'e
     \<Rightarrow> 'n Qualification run" where
  "stepQualify svc salesTeam data research enrichment =
     invoke StepQualify (qualify svc salesTeam data research enrichment)"

definition stepWriteEmail ::
  "('n, 'e) Services \<Rightarrow> FormSchema \<Rightarrow> string \<Rightarrow> 'n Qualification \<Rightarrow> 'e \<Rightarrow> string run" where
  "stepWriteEmail svc data research qualification enrichment =
     invoke StepWriteEmail (writeEmail svc data research qualification enrichment)"

definition stepGenerateFollowUpSequence ::
  "('n, 'e) Services \<Rightarrow> FormSchema \<Rightarrow> 'n Qualification \<Rightarrow> 'e \<Rightarrow> string \<Rightarrow> string list run" where
  "stepGenerateFollowUpSequence svc data qualification enrichment initialEmail =
     invoke StepGenerateFollowUpSequence
       (generateFollowUpSequence svc data qualification enrichment [initialEmail])"

text \<open>\<open>stepHumanFeedback\<close> returns early, with no message, when Slack is not configured.\<close>

definition stepHumanFeedback ::
  "('n, 'e) Services \<Rightarrow> FormSchema \<Rightarrow> string \<Rightarrow> string \<Rightarrow> 'n Qualification \<Rightarrow> 'e
     \<Rightarrow> string option run" where
  "stepHumanFeedback svc data research email' qualification enrichment =
     invoke StepHumanFeedback
       (if \<not> slackConfigured svc then ret None
        else andThen (humanFeedback svc data research email' qualification enrichment)
               (\<lambda>slackMessage. ret (Some slackMessage)))"

text \<open>
  \<open>workflowInbound\<close>. The router is the global one, constructed over \<open>salesTeam\<close>. After
  the three sequential steps the \<open>if\<close> chain on the category runs; a category outside
  the chain does nothing. The summary is returned last.
\<close>

definition workflowInbound ::
  "('n::{zero,linorder}, 'e) Services \<Rightarrow> 'n SalesTeamMember list \<Rightarrow> FormSchema \<Rightarrow> 'n InboundSummary run" where
  "workflowInbound svc salesTeam data =
     andThen (stepResearch svc data) (\<lambda>research.
     andThen (stepEnrichment svc data research) (\<lambda>enrichment.
     andThen (stepQualify svc salesTeam data research enrichment) (\<lambda>qualification.
     andThen
       (if category qualification = HOT_LEAD \<or> category qualification = QUALIFIED
           \<or> category qualification = WARM_LEAD \<or> category qualification = FOLLOW_UP
           \<or> category qualification = PARTNER
        then
          andThen (stepWriteEmail svc data research qualification enrichment) (\<lambda>email.
          andThen (stepGenerateFollowUpSequence svc data qualification enrichment email)
            (\<lambda>followUpSequence.
          andThen (stepHumanFeedback svc data research email qualification enrichment)
            (\<lambda>_. ret ())))
        else if category qualification = SUPPORT
        then
          andThen (stepWriteEmail svc data research qualification enrichment) (\<lambda>email.
          andThen (stepHumanFeedback svc data research email qualification enrichment)
            (\<lambda>_. ret ()))
        else if category qualification = UNQUALIFIED
        then andThen (stepWriteEmail svc data research qualification enrichment) (\<lambda>email. ret ())
        else if category qualification = COLD_LEAD
        then andThen (stepWriteEmail svc data research qualification enrichment) (\<lambda>email. ret ())
        else ret ())
       (\<lambda>_.
     ret \<lparr>leadName = name_form data, leadEmail = email_form data,
          category_out = category qualification, priority_out = priority qualification,
          leadScore_out = leadScore qualification,
          estimatedValue = estimatedDealValue qualification,
          nextSteps_out = nextSteps qualification,
          assignedTo_out = assignedTo qualification\<rparr>))))"

section \<open>The router over a store of objects\<close>

text \<open>
  In the program a sales team is an array of references to member objects, and \<open>filter\<close>
  returns a new array that shares the members. To state what a routing decision leaves
  unchanged, the same methods are written over a store: member objects by address, arrays
  of member addresses by address. The router \<open>this\<close> is the address of its
  \<open>salesTeam\<close> array. A method returns its result (an address or \<open>null\<close>) with the
  store it leaves; \<open>None\<close> is a read of an address that holds nothing, which a
  well-formed store excludes. The suffix \<open>_s\<close> marks these versions.
\<close>

record 'n store =
  members :: "'n SalesTeamMember list"
  arrays :: "nat list list"

definition readMember :: "'n store \<Rightarrow> nat \<Rightarrow> 'n SalesTeamMember option" where
  "readMember h r = (if r < length (members h) then Some (members h ! r) else None)"

definition readArray :: "'n store \<Rightarrow> nat \<Rightarrow> nat list option" where
  "readArray h a = (if a < length (arrays h) then Some (arrays h ! a) else None)"

text \<open>A new array is stored at the next free address; nothing else changes.\<close>

definition newArray :: "nat list \<Rightarrow> 'n store \<Rightarrow> nat \<times> 'n store" where
  "newArray rs h = (length (arrays h), h\<lparr>arrays := arrays h @ [rs]\<rparr>)"

text \<open>
  The loops of \<open>filter\<close>, \<open>find\<close> and \<open>reduce\<close> over the addresses of an array; the
  callback of \<open>reduce\<close> is the one of \<open>findLeastBusyRep\<close>, returning an address.
\<close>

fun filterRefs :: "('n SalesTeamMember \<Rightarrow> bool) \<Rightarrow> 'n store \<Rightarrow> nat list \<Rightarrow> nat list option" where
  "filterRefs P h [] = Some []"
| "filterRefs P h (r # rs) =
     (case readMember h r of
        None \<Rightarrow> None
      | Some m \<Rightarrow>
          (case filterRefs P h rs of
             None \<Rightarrow> None
           | Some ks \<Rightarrow> Some (if P m then r # ks else ks)))"

fun findRef :: "('n SalesTeamMember \<Rightarrow> bool) \<Rightarrow> 'n store \<Rightarrow> nat list \<Rightarrow> nat option option" where
  "findRef P h [] = Some None"
| "findRef P h (r # rs) =
     (case readMember h r of
        None \<Rightarrow> None
      | Some m \<Rightarrow> if P m then Some (Some r) else findRef P h rs)"

fun reduceRefs :: "'n::{zero,linorder} store \<Rightarrow> nat \<Rightarrow> nat list \<Rightarrow> nat option" where
  "reduceRefs h prev [] = Some prev"
| "reduceRefs h prev (current # rest) =
     (case readMember h prev of
        None \<Rightarrow> None
      | Some p \<Rightarrow>
          (case readMember h current of
             None \<Rightarrow> None
           | Some c \<Rightarrow>
               reduceRefs h
                 (if orZero (currentLeadCount p) < orZero (currentLeadCount c) then prev else current)
                 rest))"

definition filter_s ::
  "('n SalesTeamMember \<Rightarrow> bool) \<Rightarrow> nat \<Rightarrow> 'n store \<Rightarrow> (nat \<times> 'n store) option" where
  "filter_s P a h =
     (case readArray h a of
        None \<Rightarrow> None
      | Some rs \<Rightarrow>
          (case filterRefs P h rs of None \<Rightarrow> None | Some ks \<Rightarrow> Some (newArray ks h)))"

definition findLeastBusyRep_s ::
  "nat \<Rightarrow> 'n::{zero,linorder} store \<Rightarrow> (nat option \<times> 'n store) option" where
  "findLeastBusyRep_s team h =
     (case readArray h team of
        None \<Rightarrow> None
      | Some [] \<Rightarrow> Some (None, h)
      | Some (first # rest) \<Rightarrow>
          (case reduceRefs h first rest of None \<Rightarrow> None | Some r \<Rightarrow> Some (Some r, h)))"

definition findBestEnterpriseAE_s ::
  "nat \<Rightarrow> 'n::{zero,linorder} Qualification \<Rightarrow> 'n store \<Rightarrow> (nat option \<times> 'n store) option" where
  "findBestEnterpriseAE_s this qualification h =
     (case filter_s (\<lambda>member. role member = ENTERPRISE_AE) this h of
        None \<Rightarrow> None
      | Some (enterpriseAEs, h1) \<Rightarrow>
          (case readArray h1 enterpriseAEs of
             None \<Rightarrow> None
           | Some rs \<Rightarrow>
               if rs = [] then Some (None, h1)
               else
                 (case findRef (\<lambda>ae. hasIndustryMatch qualification ae \<and> hasCapacity ae) h1 rs of
                    None \<Rightarrow> None
                  | Some (Some match) \<Rightarrow> Some (Some match, h1)
                  | Some None \<Rightarrow> findLeastBusyRep_s enterpriseAEs h1)))"

definition findIndustryExpert_s ::
  "nat \<Rightarrow> Industry \<Rightarrow> 'n::{zero,linorder} store \<Rightarrow> (nat option \<times> 'n store) option" where
  "findIndustryExpert_s this i h =
     (case filter_s (\<lambda>member. includesIndustry member i) this h of
        None \<Rightarrow> None
      | Some (experts, h1) \<Rightarrow>
          (case readArray h1 experts of
             None \<Rightarrow> None
           | Some rs \<Rightarrow> if rs = [] then Some (None, h1) else findLeastBusyRep_s experts h1))"

definition routeLead_s ::
  "nat \<Rightarrow> 'n::{zero,linorder} Qualification \<Rightarrow> 'n store \<Rightarrow> (nat option \<times> 'n store) option" where
  "routeLead_s this qualification h =
     (case readArray h this of
        None \<Rightarrow> None
      | Some team \<Rightarrow>
          if team = [] then Some (None, h)
          else
            (case (if category qualification = HOT_LEAD \<or> priority qualification = URGENT
                   then findBestEnterpriseAE_s this qualification h else Some (None, h)) of
               None \<Rightarrow> None
             | Some (Some enterpriseAE, h1) \<Rightarrow> Some (Some enterpriseAE, h1)
             | Some (None, h1) \<Rightarrow>
                 if companySize qualification = Some ENTERPRISE
                 then findBestEnterpriseAE_s this qualification h1
                 else
                   (case (case industry qualification of
                            None \<Rightarrow> Some (None, h1)
                          | Some i \<Rightarrow> findIndustryExpert_s this i h1) of
                      None \<Rightarrow> None
                    | Some (Some industryExpert, h2) \<Rightarrow> Some (Some industryExpert, h2)
                    | Some (None, h2) \<Rightarrow> findLeastBusyRep_s this h2)))"

definition getRoutingRecommendation_s ::
  "nat \<Rightarrow> 'n::{zero,linorder} Qualification \<Rightarrow> 'n store
     \<Rightarrow> ((nat option \<times> string) \<times> 'n store) option" where
  "getRoutingRecommendation_s this qualification h =
     (case routeLead_s this qualification h of
        None \<Rightarrow> None
      | Some (None, h1) \<Rightarrow>
          Some ((None, ''No sales team configured. Please assign manually.''), h1)
      | Some (Some r, h1) \<Rightarrow>
          (case readMember h1 r of
             None \<Rightarrow> None
           | Some w \<Rightarrow> Some ((Some r, recommendationReason qualification w), h1)))"

text \<open>
  A store is well formed for a router when its team array exists and every address in it
  holds a member.
\<close>

definition wellFormed :: "'n store \<Rightarrow> nat \<Rightarrow> bool" where
  "wellFormed h this =
     (this < length (arrays h) \<and> list_all (\<lambda>r. r < length (members h)) (arrays h ! this))"

section \<open>Example inputs\<close>

text \<open>
  The classification of the spec's routing example: a hot, urgent technology lead. The
  fields the example leaves open are filled with neutral values.
\<close>

definition hotTechnologyLead :: "int Qualification" where
  "hotTechnologyLead =
     \<lparr>category = HOT_LEAD, priority = URGENT, leadScore = 90, reason = ''high intent'',
      industry = Some TECHNOLOGY, companySize = Some MID_MARKET, estimatedDealValue = None,
      nextSteps = [], assignedTo = None\<rparr>"

text \<open>An enterprise-sized, medium-priority lead of no stated industry.\<close>

definition enterpriseLead :: "int Qualification" where
  "enterpriseLead =
     \<lparr>category = QUALIFIED, priority = MEDIUM, leadScore = 70, reason = ''good fit'',
      industry = None, companySize = Some ENTERPRISE, estimatedDealValue = None,
      nextSteps = [], assignedTo = None\<rparr>"

text \<open>A hot lead of a small company.\<close>

definition hotSmbLead :: "int Qualification" where
  "hotSmbLead =
     \<lparr>category = HOT_LEAD, priority = HIGH, leadScore = 85, reason = ''ready to buy'',
      industry = None, companySize = Some SMB, estimatedDealValue = None,
      nextSteps = [], assignedTo = None\<rparr>"

text \<open>The two sales development reps of \<open>defaultSalesTeam\<close>: a team with no enterprise AE.\<close>

definition sdrTeam :: "int SalesTeamMember list" where
  "sdrTeam = drop 3 defaultSalesTeam"

text \<open>
  Two enterprise AEs: one with no lead and no industry list, and one configured with
  \<open>maxActiveLeads: 0\<close>, a load of 100 and the technology industry.
\<close>

definition idleAE :: "int SalesTeamMember" where
  "idleAE =
     \<lparr>id' = ''ae-8'', name = ''Ana Idle'', email = ''ana@company.com'', role = ENTERPRISE_AE,
      territories = None, industries = None, companySizes = None,
      maxActiveLeads = Some 10, currentLeadCount = Some 0\<rparr>"

definition zeroCapAE :: "int SalesTeamMember" where
  "zeroCapAE =
     \<lparr>id' = ''ae-9'', name = ''Bo Zero'', email = ''bo@company.com'', role = ENTERPRISE_AE,
      territories = None, industries = Some [TECHNOLOGY], companySizes = None,
      maxActiveLeads = Some 0, currentLeadCount = Some 100\<rparr>"

text \<open>
  An urgent lead that is not hot, with a team in which the only enterprise AE is busier
  than a sales development rep.
\<close>

definition urgentLead :: "int Qualification" where
  "urgentLead =
     \<lparr>category = QUALIFIED, priority = URGENT, leadScore = 75,
      reason = ''needs an answer today'', industry = None, companySize = Some SMB,
      estimatedDealValue = None, nextSteps = [], assignedTo = None\<rparr>"

definition freeSDR :: "int SalesTeamMember" where
  "freeSDR =
     \<lparr>id' = ''sdr-7'', name = ''Cy Free'', email = ''cy@company.com'', role = SDR,
      territories = None, industries = None, companySizes = None,
      maxActiveLeads = Some 40, currentLeadCount = Some 0\<rparr>"

definition busyAE :: "int SalesTeamMember" where
  "busyAE =
     \<lparr>id' = ''ae-7'', name = ''Di Busy'', email = ''di@company.com'', role = ENTERPRISE_AE,
      territories = None, industries = None, companySizes = None,
      maxActiveLeads = Some 15, currentLeadCount = Some 10\<rparr>"

text \<open>Two reps with the same load.\<close>

definition tiedFirst :: "int SalesTeamMember" where
  "tiedFirst =
     \<lparr>id' = ''sdr-a'', name = ''First Rep'', email = ''first@company.com'', role = SDR,
      territories = None, industries = None, companySizes = None,
      maxActiveLeads = None, currentLeadCount = Some 5\<rparr>"

definition tiedSecond :: "int SalesTeamMember" where
  "tiedSecond =
     \<lparr>id' = ''sdr-b'', name = ''Second Rep'', email = ''second@company.com'', role = SDR,
      territories = None, industries = None, companySizes = None,
      maxActiveLeads = None, currentLeadCount = Some 5\<rparr>"

text \<open>The default team in a store: five member objects and the router's array.\<close>

definition defaultStore :: "int store" where
  "defaultStore = \<lparr>members = defaultSalesTeam, arrays = [[0, 1, 2, 3, 4]]\<rparr>"

text \<open>
  A run of the inbound workflow: a form, and services that all answer. The classifier's
  answer is a parameter; the enrichment record is left empty.
\<close>

definition exampleForm :: FormSchema where
  "exampleForm =
     \<lparr>email_form = ''kim@example.org'', name_form = ''Kim Park'', phone = None,
      company = Some ''Example Org'', message = ''We would like to hear more.''\<rparr>"

definition exampleServices :: "int Qualification \<Rightarrow> (int, unit) Services" where
  "exampleServices classification =
     \<lparr>researchAgent_generate = (\<lambda>_. Inr ''research report''),
      generateObject_enrichment = (\<lambda>_ _. Inr ()),
      generateObject_qualification = (\<lambda>_ _ _. Inr classification),
      generateText_email = (\<lambda>_ _ _ _ _. Inr ''Subject: hello''),
      generateObject_followUps = (\<lambda>_ _ _ _. Inr [''[Day +3]'', ''[Day +7]'', ''[Day +14]'']),
      slackConfigured = True,
      sendSlackMessageWithButtons = (\<lambda>_ _ _ _ _. Inr ''ts-1'')\<rparr>"

definition coldLead :: "int Qualification" where
  "coldLead =
     \<lparr>category = COLD_LEAD, priority = LOW, leadScore = 20, reason = ''low intent'',
      industry = None, companySize = Some SMB, estimatedDealValue = None,
      nextSteps = [''nurture''], assignedTo = None\<rparr>"

definition unqualifiedLead :: "int Qualification" where
  "unqualifiedLead =
     \<lparr>category = UNQUALIFIED, priority = LOW, leadScore = 5, reason = ''outside ICP'',
      industry = None, companySize = Some STARTUP, estimatedDealValue = None,
      nextSteps = [], assignedTo = None\<rparr>"

section \<open>Facts about the least-busy selection\<close>

lemma foldl_leastBusy_mem: "foldl leastBusy a xs \<in> set (a # xs)"
proof (induction xs arbitrary: a)
  case Nil
  show ?case by simp
next
  case (Cons x xs)
  have "foldl leastBusy (leastBusy a x) xs \<in> set (leastBusy a x # xs)"
    by (rule Cons.IH)
  moreover have "leastBusy a x = a \<or> leastBusy a x = x"
    by (simp add: leastBusy_def Let_def)
  ultimately show ?case by auto
qed

lemma find_append_skip:
  "\<forall>x \<in> set xs. \<not> P x \<Longrightarrow> List.find P (xs @ ys) = List.find P ys"
  by (induction xs) auto

text \<open>
  The fold returns the last element of least load: nothing before it is lighter, and
  everything after it is strictly heavier.
\<close>

lemma foldl_leastBusy_last_min:
  "\<exists>pre post. a # xs = pre @ foldl leastBusy a xs # post \<and>
     (\<forall>x \<in> set pre. orZero (currentLeadCount (foldl leastBusy a xs)) \<le> orZero (currentLeadCount x)) \<and>
     (\<forall>x \<in> set post. orZero (currentLeadCount (foldl leastBusy a xs)) < orZero (currentLeadCount x))"
proof (induction xs rule: rev_induct)
  case Nil
  show ?case by (rule exI [of _ "[]"], rule exI [of _ "[]"]) simp
next
  case (snoc y ys)
  let ?w = "foldl leastBusy a ys"
  from snoc obtain pre post where d: "a # ys = pre @ ?w # post"
    and lo: "\<forall>x \<in> set pre. orZero (currentLeadCount ?w) \<le> orZero (currentLeadCount x)"
    and hi: "\<forall>x \<in> set post. orZero (currentLeadCount ?w) < orZero (currentLeadCount x)"
    by blast
  show ?case
  proof (cases "orZero (currentLeadCount ?w) < orZero (currentLeadCount y)")
    case True
    then have r: "foldl leastBusy a (ys @ [y]) = ?w"
      by (simp add: leastBusy_def Let_def)
    from d have "a # ys @ [y] = pre @ ?w # (post @ [y])" by simp
    moreover from hi True
    have "\<forall>x \<in> set (post @ [y]). orZero (currentLeadCount ?w) < orZero (currentLeadCount x)"
      by simp
    ultimately show ?thesis using lo unfolding r by blast
  next
    case False
    then have r: "foldl leastBusy a (ys @ [y]) = y"
      by (simp add: leastBusy_def Let_def)
    have "\<forall>x \<in> set (a # ys). orZero (currentLeadCount y) \<le> orZero (currentLeadCount x)"
    proof
      fix x assume "x \<in> set (a # ys)"
      with d have "x \<in> set pre \<or> x = ?w \<or> x \<in> set post" by auto
      with lo hi have "orZero (currentLeadCount ?w) \<le> orZero (currentLeadCount x)"
        by (auto simp: less_imp_le)
      with False show "orZero (currentLeadCount y) \<le> orZero (currentLeadCount x)"
        by simp
    qed
    moreover have "a # ys @ [y] = (a # ys) @ y # []" by simp
    ultimately show ?thesis unfolding r by (metis empty_iff list.set(1))
  qed
qed

lemma findLeastBusyRep_mem: "findLeastBusyRep team = Some w \<Longrightarrow> w \<in> set team"
  using foldl_leastBusy_mem by (auto simp: findLeastBusyRep_def split: list.splits)

lemma findLeastBusyRep_None: "findLeastBusyRep team = None \<longleftrightarrow> team = []"
  by (simp add: findLeastBusyRep_def split: list.splits)

lemma find_Some_mem: "List.find P xs = Some x \<Longrightarrow> x \<in> set xs \<and> P x"
  by (induction xs) (auto split: if_splits)

lemma findBestEnterpriseAE_role:
  assumes "findBestEnterpriseAE salesTeam q = Some w"
  shows "w \<in> set salesTeam \<and> role w = ENTERPRISE_AE"
proof -
  let ?es = "filter (\<lambda>member. role member = ENTERPRISE_AE) salesTeam"
  have "w \<in> set ?es"
  proof (cases "List.find (\<lambda>ae. hasIndustryMatch q ae \<and> hasCapacity ae) ?es")
    case None
    with assms have "findLeastBusyRep ?es = Some w"
      by (simp add: findBestEnterpriseAE_def Let_def split: if_splits)
    then show ?thesis by (rule findLeastBusyRep_mem)
  next
    case (Some m)
    with assms have "m = w"
      by (simp add: findBestEnterpriseAE_def Let_def split: if_splits)
    with Some show ?thesis by (auto dest: find_Some_mem)
  qed
  then show ?thesis by simp
qed

lemma findBestEnterpriseAE_None:
  "findBestEnterpriseAE salesTeam q = None \<longleftrightarrow> (\<forall>w \<in> set salesTeam. role w \<noteq> ENTERPRISE_AE)"
  by (auto simp: findBestEnterpriseAE_def Let_def findLeastBusyRep_None filter_empty_conv
      split: option.splits)

section \<open>Routing claims\<close>

text \<open>
  C5. Over an empty sales team, for every qualification, \<open>routeLead\<close> returns \<open>null\<close>
  (no assignee; the functions have no raising path) and \<open>getRoutingRecommendation\<close>
  returns a \<open>null\<close> assignee with the reason that no sales team is configured.
\<close>

theorem routing_empty_team:
  "routeLead [] q = None \<and>
   getRoutingRecommendation [] q =
     \<lparr>assignedTo_rec = None,
      reason_rec = ''No sales team configured. Please assign manually.''\<rparr>"
  by (simp add: routeLead_def getRoutingRecommendation_def)

text \<open>
  C1. For every qualification whose category is \<open>HOT_LEAD\<close> or whose priority is
  \<open>URGENT\<close>, and every sales team with at least one member of role \<open>ENTERPRISE_AE\<close>,
  \<open>routeLead\<close> returns a member of the team whose role is \<open>ENTERPRISE_AE\<close>.
\<close>

theorem routeLead_hot_or_urgent:
  assumes "category q = HOT_LEAD \<or> priority q = URGENT"
    and "\<exists>m \<in> set salesTeam. role m = ENTERPRISE_AE"
  shows "\<exists>w. routeLead salesTeam q = Some w \<and> w \<in> set salesTeam \<and> role w = ENTERPRISE_AE"
proof -
  from assms(2) have ne: "salesTeam \<noteq> []" by auto
  from assms(2) have "findBestEnterpriseAE salesTeam q \<noteq> None"
    by (simp add: findBestEnterpriseAE_None)
  then obtain w where w: "findBestEnterpriseAE salesTeam q = Some w" by auto
  with assms(1) ne have "routeLead salesTeam q = Some w"
    by (simp add: routeLead_def)
  with findBestEnterpriseAE_role [OF w] show ?thesis by simp
qed

theorem routeLead_hot_or_urgent_witness:
  "(category hotTechnologyLead = HOT_LEAD \<or> priority hotTechnologyLead = URGENT) \<and>
   (\<exists>m \<in> set defaultSalesTeam. role m = ENTERPRISE_AE) \<and>
   (\<exists>w. routeLead defaultSalesTeam hotTechnologyLead = Some w \<and> w \<in> set defaultSalesTeam
        \<and> role w = ENTERPRISE_AE)"
proof -
  have h1: "category hotTechnologyLead = HOT_LEAD \<or> priority hotTechnologyLead = URGENT"
    by (simp add: hotTechnologyLead_def)
  have h2: "\<exists>m \<in> set defaultSalesTeam. role m = ENTERPRISE_AE"
    by (simp add: defaultSalesTeam_def)
  from routeLead_hot_or_urgent [OF h1 h2] h1 h2 show ?thesis by blast
qed

text \<open>
  C9. If the qualification's company size is \<open>ENTERPRISE\<close> and no member of the team has
  role \<open>ENTERPRISE_AE\<close>, \<open>routeLead\<close> returns \<open>null\<close> also on a non-empty team: the
  company-size rule does not fall through. A hot or urgent lead of another company size,
  on a non-empty team with no enterprise AE, does fall through and is assigned.
\<close>

theorem routeLead_enterprise_no_AE:
  assumes "\<forall>m \<in> set salesTeam. role m \<noteq> ENTERPRISE_AE"
  shows "(companySize q = Some ENTERPRISE \<longrightarrow> routeLead salesTeam q = None) \<and>
         (companySize q \<noteq> Some ENTERPRISE \<and> salesTeam \<noteq> [] \<and>
          (category q = HOT_LEAD \<or> priority q = URGENT) \<longrightarrow>
            (\<exists>w \<in> set salesTeam. routeLead salesTeam q = Some w))"
proof -
  from assms have none: "findBestEnterpriseAE salesTeam q = None"
    by (simp add: findBestEnterpriseAE_None)
  have "routeLead salesTeam q = None" if "companySize q = Some ENTERPRISE"
    using that none by (simp add: routeLead_def)
  moreover have "\<exists>w \<in> set salesTeam. routeLead salesTeam q = Some w"
    if ne: "salesTeam \<noteq> []" and sz: "companySize q \<noteq> Some ENTERPRISE"
  proof (cases "case industry q of None \<Rightarrow> None | Some i \<Rightarrow> findIndustryExpert salesTeam i")
    case None
    with ne sz none have r: "routeLead salesTeam q = findLeastBusyRep salesTeam"
      by (simp add: routeLead_def)
    from ne obtain w where w: "findLeastBusyRep salesTeam = Some w"
      using findLeastBusyRep_None [of salesTeam] by auto
    with r findLeastBusyRep_mem [OF w] show ?thesis by simp
  next
    case (Some e)
    with ne sz none have r: "routeLead salesTeam q = Some e"
      by (simp add: routeLead_def)
    from Some obtain i where "findIndustryExpert salesTeam i = Some e"
      by (auto split: option.splits)
    then have "findLeastBusyRep (filter (\<lambda>member. includesIndustry member i) salesTeam) = Some e"
      by (simp add: findIndustryExpert_def Let_def split: if_splits)
    then have "e \<in> set salesTeam"
      by (auto dest: findLeastBusyRep_mem)
    with r show ?thesis by simp
  qed
  ultimately show ?thesis by blast
qed

theorem routeLead_enterprise_no_AE_witness:
  "\<not> (\<exists>m \<in> set sdrTeam. role m = ENTERPRISE_AE) \<and> sdrTeam \<noteq> [] \<and>
   companySize enterpriseLead = Some ENTERPRISE \<and> routeLead sdrTeam enterpriseLead = None \<and>
   companySize hotSmbLead \<noteq> Some ENTERPRISE \<and> category hotSmbLead = HOT_LEAD \<and>
   (\<exists>w \<in> set sdrTeam. routeLead sdrTeam hotSmbLead = Some w)"
proof -
  have h: "\<forall>m \<in> set sdrTeam. role m \<noteq> ENTERPRISE_AE"
    by (simp add: sdrTeam_def defaultSalesTeam_def)
  have ne: "sdrTeam \<noteq> []"
    by (simp add: sdrTeam_def defaultSalesTeam_def)
  have e: "companySize enterpriseLead = Some ENTERPRISE"
    by (simp add: enterpriseLead_def)
  have s: "companySize hotSmbLead \<noteq> Some ENTERPRISE" "category hotSmbLead = HOT_LEAD"
    by (simp_all add: hotSmbLead_def)
  from routeLead_enterprise_no_AE [OF h, of enterpriseLead] e
  have "routeLead sdrTeam enterpriseLead = None" by blast
  moreover from routeLead_enterprise_no_AE [OF h, of hotSmbLead] s ne
  have "\<exists>w \<in> set sdrTeam. routeLead sdrTeam hotSmbLead = Some w" by blast
  ultimately show ?thesis using h ne e s by blast
qed

text \<open>
  C2, as stated, fails on ties: of two reps with the same load, \<open>findLeastBusyRep\<close>
  returns the second, not the one encountered first.
\<close>

theorem findLeastBusyRep_tie_counterexample:
  "findLeastBusyRep [tiedFirst, tiedSecond] = Some tiedSecond \<and> tiedFirst \<noteq> tiedSecond \<and>
   orZero (currentLeadCount tiedFirst) = orZero (currentLeadCount tiedSecond)"
  by (simp add: findLeastBusyRep_def leastBusy_def orZero_def tiedFirst_def tiedSecond_def)

text \<open>
  C2, amended. For every non-empty candidate list, \<open>findLeastBusyRep\<close> returns a
  candidate whose \<open>currentLeadCount\<close> (a missing count read as 0) is minimal among the
  candidates, and when several candidates share that minimum it is the one encountered
  last: every candidate after the chosen one has a strictly greater count.
\<close>

theorem findLeastBusyRep_min_last:
  assumes "team \<noteq> []"
  shows "\<exists>w pre post. findLeastBusyRep team = Some w \<and> team = pre @ w # post \<and>
     (\<forall>x \<in> set team. orZero (currentLeadCount w) \<le> orZero (currentLeadCount x)) \<and>
     (\<forall>x \<in> set post. orZero (currentLeadCount w) < orZero (currentLeadCount x))"
proof -
  from assms obtain a xs where t: "team = a # xs" by (cases team) auto
  let ?w = "foldl leastBusy a xs"
  from foldl_leastBusy_last_min [of a xs] obtain pre post where d: "a # xs = pre @ ?w # post"
    and lo: "\<forall>x \<in> set pre. orZero (currentLeadCount ?w) \<le> orZero (currentLeadCount x)"
    and hi: "\<forall>x \<in> set post. orZero (currentLeadCount ?w) < orZero (currentLeadCount x)"
    by blast
  have "\<forall>x \<in> set team. orZero (currentLeadCount ?w) \<le> orZero (currentLeadCount x)"
  proof
    fix x assume "x \<in> set team"
    with t d have "x \<in> set pre \<or> x = ?w \<or> x \<in> set post" by auto
    with lo hi show "orZero (currentLeadCount ?w) \<le> orZero (currentLeadCount x)"
      by (auto simp: less_imp_le)
  qed
  moreover have "findLeastBusyRep team = Some ?w" by (simp add: t findLeastBusyRep_def)
  ultimately show ?thesis using d hi t by blast
qed

theorem findLeastBusyRep_min_last_witness:
  "sdrTeam \<noteq> [] \<and>
   (\<exists>w pre post. findLeastBusyRep sdrTeam = Some w \<and> sdrTeam = pre @ w # post \<and>
     \<not> (\<exists>x \<in> set sdrTeam. orZero (currentLeadCount x) < orZero (currentLeadCount w)) \<and>
     \<not> (\<exists>x \<in> set post. orZero (currentLeadCount x) \<le> orZero (currentLeadCount w)))"
proof -
  have ne: "sdrTeam \<noteq> []" by (simp add: sdrTeam_def defaultSalesTeam_def)
  from findLeastBusyRep_min_last [OF ne] obtain w pre post
    where "findLeastBusyRep sdrTeam = Some w" "sdrTeam = pre @ w # post"
      "\<forall>x \<in> set sdrTeam. orZero (currentLeadCount w) \<le> orZero (currentLeadCount x)"
      "\<forall>x \<in> set post. orZero (currentLeadCount w) < orZero (currentLeadCount x)"
    by blast
  then have "findLeastBusyRep sdrTeam = Some w \<and> sdrTeam = pre @ w # post \<and>
     \<not> (\<exists>x \<in> set sdrTeam. orZero (currentLeadCount x) < orZero (currentLeadCount w)) \<and>
     \<not> (\<exists>x \<in> set post. orZero (currentLeadCount x) \<le> orZero (currentLeadCount w))"
    by (auto simp: not_less not_le)
  with ne show ?thesis by blast
qed

text \<open>
  C10. In the capacity check of \<open>findBestEnterpriseAE\<close>, a member whose \<open>maxActiveLeads\<close>
  is unset or 0 always has capacity, and a missing \<open>currentLeadCount\<close> is read as a load
  of 0. So an enterprise AE configured with \<open>maxActiveLeads = 0\<close> whose industries
  include the lead's is selected by the industry-and-capacity match, whatever its load,
  when no enterprise AE before it in the team matches.
\<close>

theorem capacity_unset_or_zero:
  fixes ae x :: "'n::{zero,linorder} SalesTeamMember"
  shows "(maxActiveLeads ae = None \<or> maxActiveLeads ae = Some 0 \<longrightarrow> hasCapacity ae) \<and>
   (currentLeadCount x = None \<longrightarrow> hasCapacity x = hasCapacity (x\<lparr>currentLeadCount := Some 0\<rparr>)) \<and>
   (maxActiveLeads ae = Some 0 \<and> role ae = ENTERPRISE_AE \<and> hasIndustryMatch q ae \<and>
    (\<forall>m \<in> set pre. \<not> (role m = ENTERPRISE_AE \<and> hasIndustryMatch q m \<and> hasCapacity m)) \<longrightarrow>
      findBestEnterpriseAE (pre @ ae # post) q = Some ae)"
proof -
  have a: "hasCapacity ae" if "maxActiveLeads ae = None \<or> maxActiveLeads ae = Some 0"
    using that by (auto simp: hasCapacity_def)
  have b: "hasCapacity x = hasCapacity (x\<lparr>currentLeadCount := Some 0\<rparr>)"
    if "currentLeadCount x = None"
    using that by (simp add: hasCapacity_def orZero_def split: option.splits)
  have c: "findBestEnterpriseAE (pre @ ae # post) q = Some ae"
    if m: "maxActiveLeads ae = Some 0" and r: "role ae = ENTERPRISE_AE"
      and i: "hasIndustryMatch q ae"
      and p: "\<forall>m \<in> set pre. \<not> (role m = ENTERPRISE_AE \<and> hasIndustryMatch q m \<and> hasCapacity m)"
  proof -
    let ?E = "\<lambda>member. role member = ENTERPRISE_AE"
    let ?P = "\<lambda>ae. hasIndustryMatch q ae \<and> hasCapacity ae"
    from r have f: "filter ?E (pre @ ae # post) = filter ?E pre @ ae # filter ?E post"
      by simp
    from p have "\<forall>m \<in> set (filter ?E pre). \<not> ?P m" by auto
    then have "List.find ?P (filter ?E pre @ ae # filter ?E post) = List.find ?P (ae # filter ?E post)"
      by (rule find_append_skip)
    also from i a m have "\<dots> = Some ae" by simp
    finally show ?thesis
      unfolding findBestEnterpriseAE_def Let_def f by simp
  qed
  from a b c show ?thesis by blast
qed

theorem capacity_unset_or_zero_witness:
  "maxActiveLeads zeroCapAE = Some 0 \<and> currentLeadCount zeroCapAE = Some 100 \<and>
   hasCapacity zeroCapAE \<and>
   currentLeadCount (idleAE\<lparr>currentLeadCount := None\<rparr>) = None \<and>
   hasCapacity (idleAE\<lparr>currentLeadCount := None\<rparr>) \<and>
   role zeroCapAE = ENTERPRISE_AE \<and> hasIndustryMatch hotTechnologyLead zeroCapAE \<and>
   \<not> (\<exists>m \<in> set [idleAE]. role m = ENTERPRISE_AE \<and> hasIndustryMatch hotTechnologyLead m
                             \<and> hasCapacity m) \<and>
   findBestEnterpriseAE ([idleAE] @ zeroCapAE # []) hotTechnologyLead = Some zeroCapAE"
proof -
  have z: "maxActiveLeads zeroCapAE = Some 0" "currentLeadCount zeroCapAE = Some 100"
    "role zeroCapAE = ENTERPRISE_AE"
    by (simp_all add: zeroCapAE_def)
  have i: "hasIndustryMatch hotTechnologyLead zeroCapAE"
    by (simp add: hasIndustryMatch_def includesIndustry_def hotTechnologyLead_def zeroCapAE_def)
  have n: "\<not> hasIndustryMatch hotTechnologyLead idleAE"
    by (simp add: hasIndustryMatch_def includesIndustry_def hotTechnologyLead_def idleAE_def)
  have u: "currentLeadCount (idleAE\<lparr>currentLeadCount := None\<rparr>) = None" by simp
  have v: "hasCapacity (idleAE\<lparr>currentLeadCount := None, currentLeadCount := Some 0\<rparr>)"
    by (simp add: hasCapacity_def orZero_def idleAE_def)
  note t = capacity_unset_or_zero
    [of zeroCapAE "idleAE\<lparr>currentLeadCount := None\<rparr>" hotTechnologyLead "[idleAE]" "[]"]
  from t z have "hasCapacity zeroCapAE" by blast
  moreover from t u v have "hasCapacity (idleAE\<lparr>currentLeadCount := None\<rparr>)" by blast
  moreover from t z i n
  have "findBestEnterpriseAE ([idleAE] @ zeroCapAE # []) hotTechnologyLead = Some zeroCapAE"
    by simp
  ultimately show ?thesis using z i n u by simp
qed

text \<open>
  C8 at a failing input. An urgent lead that is not hot is assigned under the hot-or-urgent
  rule to the only enterprise AE, although a rep with no lead at all is in the team; the
  reason names best available capacity, the default rule, which would have chosen that
  rep. And a hot lead on a team with no enterprise AE is assigned to a sales development
  rep by the default rule with the reason that a hot lead requires an enterprise AE.
\<close>

theorem getRoutingRecommendation_reason_of_other_rule:
  "getRoutingRecommendation [freeSDR, busyAE] urgentLead =
     \<lparr>assignedTo_rec = Some busyAE,
      reason_rec = ''Assigned to Di Busy (ENTERPRISE_AE) - Best available capacity''\<rparr> \<and>
   findLeastBusyRep [freeSDR, busyAE] = Some freeSDR \<and>
   reason_rec (getRoutingRecommendation sdrTeam hotSmbLead) =
     ''Assigned to Emily Johnson (SDR) - Hot lead requires enterprise AE''"
  by (simp add: getRoutingRecommendation_def recommendationReason_def routeLead_def
      findBestEnterpriseAE_def findLeastBusyRep_def leastBusy_def orZero_def
      hasIndustryMatch_def urgentLead_def freeSDR_def busyAE_def hotSmbLead_def sdrTeam_def
      defaultSalesTeam_def)

section \<open>The inbound workflow: its runs by category\<close>

lemma qualify_result:
  assumes "generateObject_qualification svc data research enrichment = Inr classification"
  shows "qualify svc salesTeam data research enrichment =
     ([GetRoutingRecommendation],
      Inr (case routeLead salesTeam classification of
             None \<Rightarrow> classification
           | Some w \<Rightarrow>
               classification\<lparr>assignedTo :=
                 Some (name w @ '' ('' @ email w @ '') - '' @ recommendationReason classification w)\<rparr>))"
  using assms
  by (simp add: qualify_def andThen_def invoke_def await_def ret_def getRoutingRecommendation_def
      split: option.splits)

lemma getEmailTemplateType_light:
  "category q = UNQUALIFIED \<or> category q = COLD_LEAD \<Longrightarrow> getEmailTemplateType q = NURTURE"
  by (auto simp: getEmailTemplateType_def)

lemma workflowInbound_light_touch:
  assumes r: "researchAgent_generate svc data = Inr research"
    and e: "generateObject_enrichment svc data research = Inr enrichment"
    and q: "qualify svc salesTeam data research enrichment = ([GetRoutingRecommendation], Inr q)"
    and c: "category q = UNQUALIFIED \<or> category q = COLD_LEAD"
  shows "workflowInbound svc salesTeam data =
     ([StepResearch, StepEnrichment, StepQualify, GetRoutingRecommendation, StepWriteEmail,
       GenerateText NURTURE],
      case generateText_email svc data research q enrichment NURTURE of
        Inl failure \<Rightarrow> Inl failure
      | Inr text \<Rightarrow>
          Inr \<lparr>leadName = name_form data, leadEmail = email_form data,
               category_out = category q, priority_out = priority q,
               leadScore_out = leadScore q, estimatedValue = estimatedDealValue q,
               nextSteps_out = nextSteps q, assignedTo_out = assignedTo q\<rparr>)"
proof -
  have w: "stepWriteEmail svc data research q enrichment =
      ([StepWriteEmail, GenerateText NURTURE],
       generateText_email svc data research q enrichment NURTURE)"
    using getEmailTemplateType_light [OF c]
    by (simp add: stepWriteEmail_def writeEmail_def invoke_def await_def)
  from c have n: "category q \<noteq> HOT_LEAD" "category q \<noteq> QUALIFIED" "category q \<noteq> WARM_LEAD"
    "category q \<noteq> FOLLOW_UP" "category q \<noteq> PARTNER" "category q \<noteq> SUPPORT"
    by auto
  show ?thesis
    using c n
    by (auto simp add: workflowInbound_def stepResearch_def stepEnrichment_def stepQualify_def
        enrichLead_def r e q w andThen_def invoke_def await_def ret_def split: sum.splits)
qed


lemma qualify_category:
  assumes "generateObject_qualification svc data research enrichment = Inr classification"
  shows "\<exists>q. qualify svc salesTeam data research enrichment = ([GetRoutingRecommendation], Inr q) \<and>
     category q = category classification \<and>
     assignedTo q =
       (case routeLead salesTeam classification of
          None \<Rightarrow> assignedTo classification
        | Some w \<Rightarrow>
            Some (name w @ '' ('' @ email w @ '') - '' @ recommendationReason classification w))"
  unfolding qualify_result [OF assms] by (simp split: option.splits)

text \<open>
  C4. The code keeps no run status; a run awaits approval exactly when it has invoked the
  human-feedback step, after which the workflow logs that it awaits human approval. For
  every lead that the classifier puts in category \<open>UNQUALIFIED\<close> or \<open>COLD_LEAD\<close>, the
  run of the inbound workflow never invokes the human-feedback step and sends no Slack
  message; for \<open>UNQUALIFIED\<close> it never invokes the follow-up-sequence step.
\<close>

theorem inbound_unqualified_cold_no_approval:
  assumes r: "researchAgent_generate svc data = Inr research"
    and e: "generateObject_enrichment svc data research = Inr enrichment"
    and c: "generateObject_qualification svc data research enrichment = Inr classification"
    and u: "category classification = UNQUALIFIED \<or> category classification = COLD_LEAD"
  shows "StepHumanFeedback \<notin> set (fst (workflowInbound svc salesTeam data)) \<and>
     SendSlackMessage \<notin> set (fst (workflowInbound svc salesTeam data)) \<and>
     (category classification = UNQUALIFIED \<longrightarrow>
        StepGenerateFollowUpSequence \<notin> set (fst (workflowInbound svc salesTeam data)))"
proof -
  from qualify_category [OF c, of salesTeam] obtain q
    where q: "qualify svc salesTeam data research enrichment = ([GetRoutingRecommendation], Inr q)"
      and k: "category q = category classification"
    by blast
  from u k have "category q = UNQUALIFIED \<or> category q = COLD_LEAD" by simp
  from workflowInbound_light_touch [OF r e q this] show ?thesis by simp
qed

theorem inbound_unqualified_cold_no_approval_witness:
  "researchAgent_generate (exampleServices unqualifiedLead) exampleForm = Inr ''research report'' \<and>
   generateObject_enrichment (exampleServices unqualifiedLead) exampleForm ''research report'' = Inr () \<and>
   generateObject_qualification (exampleServices unqualifiedLead) exampleForm ''research report'' ()
     = Inr unqualifiedLead \<and>
   category unqualifiedLead = UNQUALIFIED \<and>
   StepHumanFeedback \<notin> set (fst (workflowInbound (exampleServices unqualifiedLead) defaultSalesTeam exampleForm)) \<and>
   SendSlackMessage \<notin> set (fst (workflowInbound (exampleServices unqualifiedLead) defaultSalesTeam exampleForm)) \<and>
   StepGenerateFollowUpSequence \<notin>
     set (fst (workflowInbound (exampleServices unqualifiedLead) defaultSalesTeam exampleForm))"
proof -
  have r: "researchAgent_generate (exampleServices unqualifiedLead) exampleForm = Inr ''research report''"
    by (simp add: exampleServices_def)
  have e: "generateObject_enrichment (exampleServices unqualifiedLead) exampleForm ''research report'' = Inr ()"
    by (simp add: exampleServices_def)
  have c: "generateObject_qualification (exampleServices unqualifiedLead) exampleForm ''research report'' ()
      = Inr unqualifiedLead"
    by (simp add: exampleServices_def)
  have u: "category unqualifiedLead = UNQUALIFIED" by (simp add: unqualifiedLead_def)
  then have u': "category unqualifiedLead = UNQUALIFIED \<or> category unqualifiedLead = COLD_LEAD" ..
  from inbound_unqualified_cold_no_approval [OF r e c u', of defaultSalesTeam] r e c u
  show ?thesis by simp
qed

text \<open>
  C3, amended. For every lead that the classifier puts in category \<open>COLD_LEAD\<close> and
  every sales team, the run is research, enrichment and qualification, one consultation
  of the routing engine inside the qualification, whose recommendation, when it names a
  member, is written to \<open>assignedTo\<close>, and one email generation with the nurture
  template; no follow-up-sequence step and no human-feedback step is invoked. The run
  returns the summary, carrying that assignment, as soon as the email generation answers.
\<close>

theorem inbound_cold_lead_run:
  assumes r: "researchAgent_generate svc data = Inr research"
    and e: "generateObject_enrichment svc data research = Inr enrichment"
    and c: "generateObject_qualification svc data research enrichment = Inr classification"
    and u: "category classification = COLD_LEAD"
  shows "\<exists>q. snd (qualify svc salesTeam data research enrichment) = Inr q \<and>
     category q = COLD_LEAD \<and>
     assignedTo q =
       (case routeLead salesTeam classification of
          None \<Rightarrow> assignedTo classification
        | Some w \<Rightarrow>
            Some (name w @ '' ('' @ email w @ '') - '' @ recommendationReason classification w)) \<and>
     workflowInbound svc salesTeam data =
       ([StepResearch, StepEnrichment, StepQualify, GetRoutingRecommendation, StepWriteEmail,
         GenerateText NURTURE],
        case generateText_email svc data research q enrichment NURTURE of
          Inl failure \<Rightarrow> Inl failure
        | Inr text \<Rightarrow>
            Inr \<lparr>leadName = name_form data, leadEmail = email_form data,
                 category_out = category q, priority_out = priority q,
                 leadScore_out = leadScore q, estimatedValue = estimatedDealValue q,
                 nextSteps_out = nextSteps q, assignedTo_out = assignedTo q\<rparr>)"
proof -
  from qualify_category [OF c, of salesTeam] obtain q
    where q: "qualify svc salesTeam data research enrichment = ([GetRoutingRecommendation], Inr q)"
      and k: "category q = category classification"
      and a: "assignedTo q =
       (case routeLead salesTeam classification of
          None \<Rightarrow> assignedTo classification
        | Some w \<Rightarrow>
            Some (name w @ '' ('' @ email w @ '') - '' @ recommendationReason classification w))"
    by blast
  from u k have k': "category q = COLD_LEAD" by simp
  then have "category q = UNQUALIFIED \<or> category q = COLD_LEAD" ..
  from workflowInbound_light_touch [OF r e q this] q k' a show ?thesis by simp
qed

theorem inbound_cold_lead_run_witness:
  "researchAgent_generate (exampleServices coldLead) exampleForm = Inr ''research report'' \<and>
   generateObject_enrichment (exampleServices coldLead) exampleForm ''research report'' = Inr () \<and>
   generateObject_qualification (exampleServices coldLead) exampleForm ''research report'' ()
     = Inr coldLead \<and>
   category coldLead = COLD_LEAD \<and>
   fst (workflowInbound (exampleServices coldLead) sdrTeam exampleForm) =
     [StepResearch, StepEnrichment, StepQualify, GetRoutingRecommendation, StepWriteEmail,
      GenerateText NURTURE]"
proof -
  have r: "researchAgent_generate (exampleServices coldLead) exampleForm = Inr ''research report''"
    by (simp add: exampleServices_def)
  have e: "generateObject_enrichment (exampleServices coldLead) exampleForm ''research report'' = Inr ()"
    by (simp add: exampleServices_def)
  have c: "generateObject_qualification (exampleServices coldLead) exampleForm ''research report'' ()
      = Inr coldLead"
    by (simp add: exampleServices_def)
  have u: "category coldLead = COLD_LEAD" by (simp add: coldLead_def)
  from inbound_cold_lead_run [OF r e c u, of sdrTeam] obtain q
    where "workflowInbound (exampleServices coldLead) sdrTeam exampleForm =
       ([StepResearch, StepEnrichment, StepQualify, GetRoutingRecommendation, StepWriteEmail,
         GenerateText NURTURE],
        case generateText_email (exampleServices coldLead) exampleForm ''research report'' q () NURTURE of
          Inl failure \<Rightarrow> Inl failure
        | Inr text \<Rightarrow>
            Inr \<lparr>leadName = name_form exampleForm, leadEmail = email_form exampleForm,
                 category_out = category q, priority_out = priority q,
                 leadScore_out = leadScore q, estimatedValue = estimatedDealValue q,
                 nextSteps_out = nextSteps q, assignedTo_out = assignedTo q\<rparr>)"
    by blast
  then have "fst (workflowInbound (exampleServices coldLead) sdrTeam exampleForm) =
     [StepResearch, StepEnrichment, StepQualify, GetRoutingRecommendation, StepWriteEmail,
      GenerateText NURTURE]"
    by simp
  with r e c u show ?thesis by simp
qed

text \<open>
  C3, as stated, fails: for a cold lead and the default team the routing engine is
  consulted and the summary carries the assignment it recommends.
\<close>

theorem inbound_cold_lead_counterexample:
  "category coldLead = COLD_LEAD \<and> defaultSalesTeam \<noteq> [] \<and>
   generateObject_qualification (exampleServices coldLead) exampleForm ''research report'' ()
     = Inr coldLead \<and> assignedTo coldLead = None \<and>
   workflowInbound (exampleServices coldLead) defaultSalesTeam exampleForm =
     ([StepResearch, StepEnrichment, StepQualify, GetRoutingRecommendation, StepWriteEmail,
       GenerateText NURTURE],
      Inr \<lparr>leadName = ''Kim Park'', leadEmail = ''kim@example.org'',
           category_out = COLD_LEAD, priority_out = LOW, leadScore_out = 20,
           estimatedValue = None, nextSteps_out = [''nurture''],
           assignedTo_out =
             Some ''Sarah Chen (sarah.chen@company.com) - Assigned to Sarah Chen (ENTERPRISE_AE) - Best available capacity''\<rparr>)"
  by (simp add: workflowInbound_def stepResearch_def stepEnrichment_def stepQualify_def
      stepWriteEmail_def enrichLead_def qualify_def writeEmail_def getEmailTemplateType_def
      andThen_def invoke_def await_def ret_def exampleServices_def exampleForm_def coldLead_def
      getRoutingRecommendation_def recommendationReason_def routeLead_def
      findLeastBusyRep_def leastBusy_def orZero_def defaultSalesTeam_def)

text \<open>
  C6, as stated, fails: the selector maps two pairs of the eight categories to the same
  template kind, and the cold category to the nurture template, not to \<open>COLD_OUTREACH\<close>;
  so no seven categories have seven distinct kinds.
\<close>

theorem getEmailTemplateType_collisions_counterexample:
  "getEmailTemplateType (coldLead\<lparr>category := QUALIFIED\<rparr>) =
     getEmailTemplateType (coldLead\<lparr>category := WARM_LEAD\<rparr>) \<and>
   getEmailTemplateType (coldLead\<lparr>category := COLD_LEAD\<rparr>) =
     getEmailTemplateType (coldLead\<lparr>category := UNQUALIFIED\<rparr>) \<and>
   getEmailTemplateType (coldLead\<lparr>category := COLD_LEAD\<rparr>) \<noteq> COLD_OUTREACH"
  by (simp add: getEmailTemplateType_def)

text \<open>
  C6, amended. \<open>getEmailTemplateType\<close> depends on the category alone. Six categories
  are mapped explicitly, to five template kinds (\<open>QUALIFIED\<close> and \<open>WARM_LEAD\<close> share
  \<open>QUALIFIED_RESPONSE\<close>); the two others, \<open>COLD_LEAD\<close> and \<open>UNQUALIFIED\<close>, default to
  the nurture template; the seventh kind, \<open>COLD_OUTREACH\<close>, is never selected.
\<close>

theorem getEmailTemplateType_by_category:
  "(category q = category q' \<longrightarrow> getEmailTemplateType q = getEmailTemplateType q') \<and>
   (getEmailTemplateType q = HOT_LEAD_RESPONSE \<longleftrightarrow> category q = HOT_LEAD) \<and>
   (getEmailTemplateType q = QUALIFIED_RESPONSE \<longleftrightarrow>
      category q = QUALIFIED \<or> category q = WARM_LEAD) \<and>
   (getEmailTemplateType q = FOLLOW_UP_TEMPLATE \<longleftrightarrow> category q = FOLLOW_UP) \<and>
   (getEmailTemplateType q = SUPPORT_REDIRECT \<longleftrightarrow> category q = SUPPORT) \<and>
   (getEmailTemplateType q = PARTNER_OUTREACH \<longleftrightarrow> category q = PARTNER) \<and>
   (getEmailTemplateType q = NURTURE \<longleftrightarrow> category q = COLD_LEAD \<or> category q = UNQUALIFIED) \<and>
   getEmailTemplateType q \<noteq> COLD_OUTREACH"
  by (cases "category q") (simp_all add: getEmailTemplateType_def)

theorem getEmailTemplateType_by_category_witness:
  "category coldLead = category (coldLead\<lparr>priority := URGENT, leadScore := 99\<rparr>) \<and>
   getEmailTemplateType coldLead = getEmailTemplateType (coldLead\<lparr>priority := URGENT, leadScore := 99\<rparr>) \<and>
   getEmailTemplateType coldLead = NURTURE"
proof -
  have c: "category coldLead = category (coldLead\<lparr>priority := URGENT, leadScore := 99\<rparr>)"
    "category coldLead = COLD_LEAD"
    by (simp_all add: coldLead_def)
  from getEmailTemplateType_by_category [of coldLead "coldLead\<lparr>priority := URGENT, leadScore := 99\<rparr>"] c
  show ?thesis by blast
qed

section \<open>The router over a store: what it reads, what it adds\<close>

text \<open>Adding arrays changes no member and no array that was there.\<close>

lemma readMember_arrays [simp]: "readMember (h\<lparr>arrays := as\<rparr>) r = readMember h r"
  by (simp add: readMember_def)

lemma readArray_old:
  "a < length (arrays h) \<Longrightarrow> readArray (h\<lparr>arrays := arrays h @ new\<rparr>) a = Some (arrays h ! a)"
  by (simp add: readArray_def nth_append)

lemma readArray_new:
  "readArray (h\<lparr>arrays := arrays h @ [ks]\<rparr>) (length (arrays h)) = Some ks"
  by (simp add: readArray_def)

text \<open>In a well-formed store the three loops read every address they visit.\<close>

lemma filterRefs_eq:
  "\<forall>r \<in> set rs. r < length (members h) \<Longrightarrow>
     filterRefs P h rs = Some (filter (\<lambda>r. P (members h ! r)) rs)"
  by (induction rs) (simp_all add: readMember_def)

lemma findRef_eq:
  "\<forall>r \<in> set rs. r < length (members h) \<Longrightarrow>
     findRef P h rs = Some (List.find (\<lambda>r. P (members h ! r)) rs)"
  by (induction rs) (simp_all add: readMember_def)

lemma reduceRefs_eq:
  "\<forall>r \<in> set (prev # rs). r < length (members h) \<Longrightarrow>
     \<exists>k \<in> set (prev # rs). reduceRefs h prev rs = Some k \<and>
        members h ! k = foldl leastBusy (members h ! prev) (map (\<lambda>r. members h ! r) rs)"
proof (induction rs arbitrary: prev)
  case Nil
  show ?case by simp
next
  case (Cons c rs)
  let ?n = "if orZero (currentLeadCount (members h ! prev)) < orZero (currentLeadCount (members h ! c))
            then prev else c"
  from Cons.prems have "\<forall>r \<in> set (?n # rs). r < length (members h)" by simp
  from Cons.IH [OF this] obtain k where k: "k \<in> set (?n # rs)"
    "reduceRefs h ?n rs = Some k"
    "members h ! k = foldl leastBusy (members h ! ?n) (map (\<lambda>r. members h ! r) rs)"
    by blast
  have "members h ! ?n = leastBusy (members h ! prev) (members h ! c)"
    by (simp add: leastBusy_def Let_def)
  with k Cons.prems show ?case
    by (auto simp: readMember_def)
qed

lemma find_deref:
  "map_option f (List.find (\<lambda>r. P (f r)) rs) = List.find P (map f rs)"
  by (induction rs) simp_all

lemma find_in: "List.find P rs = Some k \<Longrightarrow> k \<in> set rs"
  by (induction rs) (auto split: if_splits)

text \<open>
  Each method over the store returns, leaves the store as it was but for the arrays that
  \<open>filter\<close> has added, and its result is the address of the member that the method over
  the list of members returns.
\<close>

lemma findLeastBusyRep_s_refines:
  assumes a: "readArray h a = Some rs" and m: "\<forall>r \<in> set rs. r < length (members h)"
  shows "\<exists>res. findLeastBusyRep_s a h = Some (res, h) \<and>
     map_option (\<lambda>r. members h ! r) res = findLeastBusyRep (map (\<lambda>r. members h ! r) rs) \<and>
     (\<forall>k. res = Some k \<longrightarrow> k \<in> set rs)"
proof (cases rs)
  case Nil
  with a show ?thesis by (simp add: findLeastBusyRep_s_def findLeastBusyRep_def)
next
  case (Cons first rest)
  with m have "\<forall>r \<in> set (first # rest). r < length (members h)" by simp
  from reduceRefs_eq [OF this] obtain k where "k \<in> set (first # rest)"
    "reduceRefs h first rest = Some k"
    "members h ! k = foldl leastBusy (members h ! first) (map (\<lambda>r. members h ! r) rest)"
    by blast
  with a Cons show ?thesis by (simp add: findLeastBusyRep_s_def findLeastBusyRep_def)
qed

lemma filter_s_eq:
  assumes a: "readArray h a = Some rs" and m: "\<forall>r \<in> set rs. r < length (members h)"
  shows "filter_s P a h =
     Some (length (arrays h), h\<lparr>arrays := arrays h @ [filter (\<lambda>r. P (members h ! r)) rs]\<rparr>)"
  using a filterRefs_eq [OF m, of P] by (simp add: filter_s_def newArray_def)

lemma findBestEnterpriseAE_s_refines:
  assumes a: "readArray h this = Some rs" and m: "\<forall>r \<in> set rs. r < length (members h)"
  shows "\<exists>res ks. findBestEnterpriseAE_s this q h = Some (res, h\<lparr>arrays := arrays h @ [ks]\<rparr>) \<and>
     map_option (\<lambda>r. members h ! r) res = findBestEnterpriseAE (map (\<lambda>r. members h ! r) rs) q \<and>
     (\<forall>k. res = Some k \<longrightarrow> k \<in> set rs)"
proof -
  let ?d = "\<lambda>r. members h ! r"
  let ?ks = "filter (\<lambda>r. role (?d r) = ENTERPRISE_AE) rs"
  let ?h1 = "h\<lparr>arrays := arrays h @ [?ks]\<rparr>"
  let ?P = "\<lambda>ae. hasIndustryMatch q ae \<and> hasCapacity ae"
  have f: "filter_s (\<lambda>member. role member = ENTERPRISE_AE) this h = Some (length (arrays h), ?h1)"
    by (rule filter_s_eq [OF a m])
  have r1: "readArray ?h1 (length (arrays h)) = Some ?ks" by (rule readArray_new)
  have m1: "\<forall>r \<in> set ?ks. r < length (members ?h1)" using m by simp
  have fl: "filter (\<lambda>member. role member = ENTERPRISE_AE) (map ?d rs) = map ?d ?ks"
    by (simp add: filter_map comp_def)
  show ?thesis
  proof (cases "?ks = []")
    case True
    with f r1 fl show ?thesis
      by (auto simp: findBestEnterpriseAE_s_def findBestEnterpriseAE_def Let_def)
  next
    case False
    have fr: "findRef ?P ?h1 ?ks = Some (List.find (\<lambda>r. ?P (?d r)) ?ks)"
      using findRef_eq [OF m1, of ?P] by simp
    show ?thesis
    proof (cases "List.find (\<lambda>r. ?P (?d r)) ?ks")
      case (Some k)
      then have "List.find ?P (map ?d ?ks) = Some (?d k)"
        using find_deref [of ?d ?P ?ks] by simp
      moreover from Some have "k \<in> set rs" by (auto dest: find_in)
      ultimately show ?thesis using f r1 fl fr False Some
        by (auto simp: findBestEnterpriseAE_s_def findBestEnterpriseAE_def Let_def)
    next
      case None
      then have n: "List.find ?P (map ?d ?ks) = None"
        using find_deref [of ?d ?P ?ks] by simp
      from findLeastBusyRep_s_refines [OF r1 m1] obtain res
        where l: "findLeastBusyRep_s (length (arrays h)) ?h1 = Some (res, ?h1)"
          "map_option ?d res = findLeastBusyRep (map ?d ?ks)"
          "\<forall>k. res = Some k \<longrightarrow> k \<in> set ?ks"
        by auto
      have "findBestEnterpriseAE_s this q h = Some (res, ?h1)"
        using f r1 fr False None l(1) by (simp add: findBestEnterpriseAE_s_def)
      moreover have "findBestEnterpriseAE (map ?d rs) q = findLeastBusyRep (map ?d ?ks)"
        using fl False n by (simp add: findBestEnterpriseAE_def Let_def)
      ultimately show ?thesis using l(2,3) by auto
    qed
  qed
qed

lemma findIndustryExpert_s_refines:
  assumes a: "readArray h this = Some rs" and m: "\<forall>r \<in> set rs. r < length (members h)"
  shows "\<exists>res ks. findIndustryExpert_s this i h = Some (res, h\<lparr>arrays := arrays h @ [ks]\<rparr>) \<and>
     map_option (\<lambda>r. members h ! r) res = findIndustryExpert (map (\<lambda>r. members h ! r) rs) i \<and>
     (\<forall>k. res = Some k \<longrightarrow> k \<in> set rs)"
proof -
  let ?d = "\<lambda>r. members h ! r"
  let ?ks = "filter (\<lambda>r. includesIndustry (?d r) i) rs"
  let ?h1 = "h\<lparr>arrays := arrays h @ [?ks]\<rparr>"
  have f: "filter_s (\<lambda>member. includesIndustry member i) this h = Some (length (arrays h), ?h1)"
    by (rule filter_s_eq [OF a m])
  have r1: "readArray ?h1 (length (arrays h)) = Some ?ks" by (rule readArray_new)
  have m1: "\<forall>r \<in> set ?ks. r < length (members ?h1)" using m by simp
  have fl: "filter (\<lambda>member. includesIndustry member i) (map ?d rs) = map ?d ?ks"
    by (simp add: filter_map comp_def)
  show ?thesis
  proof (cases "?ks = []")
    case True
    with f r1 fl show ?thesis
      by (auto simp: findIndustryExpert_s_def findIndustryExpert_def Let_def)
  next
    case False
    from findLeastBusyRep_s_refines [OF r1 m1] obtain res
      where l: "findLeastBusyRep_s (length (arrays h)) ?h1 = Some (res, ?h1)"
        "map_option ?d res = findLeastBusyRep (map ?d ?ks)"
        "\<forall>k. res = Some k \<longrightarrow> k \<in> set ?ks"
      by auto
    have "findIndustryExpert_s this i h = Some (res, ?h1)"
      using f r1 False l(1) by (simp add: findIndustryExpert_s_def)
    moreover have "findIndustryExpert (map ?d rs) i = findLeastBusyRep (map ?d ?ks)"
      using fl False by (simp add: findIndustryExpert_def Let_def)
    ultimately show ?thesis using l(2,3) by auto
  qed
qed


lemma readArray_Some: "readArray h a = Some rs \<longleftrightarrow> a < length (arrays h) \<and> arrays h ! a = rs"
  by (simp add: readArray_def)

text \<open>The rules after the first, from any store in which the team is readable.\<close>

lemma routeLead_s_rest:
  assumes a: "readArray g this = Some rs" and m: "\<forall>r \<in> set rs. r < length (members g)"
  shows "\<exists>res new.
     (if companySize q = Some ENTERPRISE then findBestEnterpriseAE_s this q g
      else
        (case (case industry q of
                 None \<Rightarrow> Some (None, g)
               | Some i \<Rightarrow> findIndustryExpert_s this i g) of
           None \<Rightarrow> None
         | Some (Some industryExpert, h2) \<Rightarrow> Some (Some industryExpert, h2)
         | Some (None, h2) \<Rightarrow> findLeastBusyRep_s this h2))
       = Some (res, g\<lparr>arrays := arrays g @ new\<rparr>) \<and>
     map_option (\<lambda>r. members g ! r) res =
       (if companySize q = Some ENTERPRISE
        then findBestEnterpriseAE (map (\<lambda>r. members g ! r) rs) q
        else
          (case (case industry q of
                   None \<Rightarrow> None
                 | Some i \<Rightarrow> findIndustryExpert (map (\<lambda>r. members g ! r) rs) i) of
             Some industryExpert \<Rightarrow> Some industryExpert
           | None \<Rightarrow> findLeastBusyRep (map (\<lambda>r. members g ! r) rs))) \<and>
     (\<forall>k. res = Some k \<longrightarrow> k \<in> set rs)"
proof (cases "companySize q = Some ENTERPRISE")
  case True
  from findBestEnterpriseAE_s_refines [OF a m, of q] obtain res ks
    where "findBestEnterpriseAE_s this q g = Some (res, g\<lparr>arrays := arrays g @ [ks]\<rparr>)"
      "map_option (\<lambda>r. members g ! r) res = findBestEnterpriseAE (map (\<lambda>r. members g ! r) rs) q"
      "\<forall>k. res = Some k \<longrightarrow> k \<in> set rs"
    by blast
  with True show ?thesis
    by (intro exI [of _ res] exI [of _ "[ks]"]) simp
next
  case False
  let ?d = "\<lambda>r. members g ! r"
  have least: "\<exists>res. findLeastBusyRep_s this g2 = Some (res, g\<lparr>arrays := arrays g @ new\<rparr>) \<and>
        map_option ?d res = findLeastBusyRep (map ?d rs) \<and> (\<forall>k. res = Some k \<longrightarrow> k \<in> set rs)"
    if g2: "g2 = g\<lparr>arrays := arrays g @ new\<rparr>" for g2 new
  proof -
    from a have "readArray g2 this = Some rs"
      unfolding g2 by (simp add: readArray_Some readArray_old)
    moreover from m have "\<forall>r \<in> set rs. r < length (members g2)" unfolding g2 by simp
    ultimately have "\<exists>res. findLeastBusyRep_s this g2 = Some (res, g2) \<and>
        map_option (\<lambda>r. members g2 ! r) res = findLeastBusyRep (map (\<lambda>r. members g2 ! r) rs) \<and>
        (\<forall>k. res = Some k \<longrightarrow> k \<in> set rs)"
      by (rule findLeastBusyRep_s_refines)
    then show ?thesis unfolding g2 by simp
  qed
  show ?thesis
  proof (cases "industry q")
    case None
    from least [of g "[]"] obtain res where "findLeastBusyRep_s this g = Some (res, g\<lparr>arrays := arrays g @ []\<rparr>)"
      "map_option ?d res = findLeastBusyRep (map ?d rs)" "\<forall>k. res = Some k \<longrightarrow> k \<in> set rs"
      by auto
    with False None show ?thesis
      by (intro exI [of _ res] exI [of _ "[]"]) simp
  next
    case (Some i)
    from findIndustryExpert_s_refines [OF a m, of i] obtain res1 ks
      where e: "findIndustryExpert_s this i g = Some (res1, g\<lparr>arrays := arrays g @ [ks]\<rparr>)"
        "map_option ?d res1 = findIndustryExpert (map ?d rs) i"
        "\<forall>k. res1 = Some k \<longrightarrow> k \<in> set rs"
      by blast
    show ?thesis
    proof (cases res1)
      case (Some k)
      with e have "findIndustryExpert (map ?d rs) i = Some (?d k)" "k \<in> set rs" by auto
      with False \<open>industry q = Some i\<close> e(1) Some show ?thesis
        by (intro exI [of _ res1] exI [of _ "[ks]"]) simp
    next
      case None
      with e have n: "findIndustryExpert (map ?d rs) i = None" by simp
      from least [of "g\<lparr>arrays := arrays g @ [ks]\<rparr>" "[ks]"] obtain res
        where "findLeastBusyRep_s this (g\<lparr>arrays := arrays g @ [ks]\<rparr>)
                 = Some (res, g\<lparr>arrays := arrays g @ [ks]\<rparr>)"
          "map_option ?d res = findLeastBusyRep (map ?d rs)" "\<forall>k. res = Some k \<longrightarrow> k \<in> set rs"
        by auto
      with False \<open>industry q = Some i\<close> e(1) None n show ?thesis
        by (intro exI [of _ res] exI [of _ "[ks]"]) simp
    qed
  qed
qed

lemma routeLead_s_refines:
  assumes a: "readArray h this = Some rs" and m: "\<forall>r \<in> set rs. r < length (members h)"
  shows "\<exists>res new. routeLead_s this q h = Some (res, h\<lparr>arrays := arrays h @ new\<rparr>) \<and>
     map_option (\<lambda>r. members h ! r) res = routeLead (map (\<lambda>r. members h ! r) rs) q \<and>
     (\<forall>k. res = Some k \<longrightarrow> k \<in> set rs)"
proof (cases "rs = []")
  case True
  with a have "routeLead_s this q h = Some (None, h\<lparr>arrays := arrays h @ []\<rparr>)"
    by (simp add: routeLead_s_def)
  moreover from True have "routeLead (map (\<lambda>r. members h ! r) rs) q = None"
    by (simp add: routeLead_def)
  ultimately show ?thesis
    by (intro exI [of _ None] exI [of _ "[]"]) simp
next
  case ne: False
  let ?d = "\<lambda>r. members h ! r"
  let ?hot = "category q = HOT_LEAD \<or> priority q = URGENT"
  have first: "\<exists>res1 new1.
      (if ?hot then findBestEnterpriseAE_s this q h else Some (None, h))
         = Some (res1, h\<lparr>arrays := arrays h @ new1\<rparr>) \<and>
      map_option ?d res1 = (if ?hot then findBestEnterpriseAE (map ?d rs) q else None) \<and>
      (\<forall>k. res1 = Some k \<longrightarrow> k \<in> set rs)"
  proof (cases ?hot)
    case True
    from findBestEnterpriseAE_s_refines [OF a m, of q] obtain res ks
      where "findBestEnterpriseAE_s this q h = Some (res, h\<lparr>arrays := arrays h @ [ks]\<rparr>)"
        "map_option ?d res = findBestEnterpriseAE (map ?d rs) q"
        "\<forall>k. res = Some k \<longrightarrow> k \<in> set rs"
      by blast
    with True show ?thesis
      by (intro exI [of _ res] exI [of _ "[ks]"]) simp
  next
    case False
    then show ?thesis
      by (intro exI [of _ None] exI [of _ "[]"]) simp
  qed
  then obtain res1 new1
    where f: "(if ?hot then findBestEnterpriseAE_s this q h else Some (None, h))
         = Some (res1, h\<lparr>arrays := arrays h @ new1\<rparr>)"
      and f2: "map_option ?d res1 = (if ?hot then findBestEnterpriseAE (map ?d rs) q else None)"
      and f3: "\<forall>k. res1 = Some k \<longrightarrow> k \<in> set rs"
    by blast
  let ?h1 = "h\<lparr>arrays := arrays h @ new1\<rparr>"
  show ?thesis
  proof (cases res1)
    case (Some k)
    with f have "routeLead_s this q h = Some (Some k, ?h1)"
      using a ne by (simp add: routeLead_s_def)
    moreover from Some f2 have "?hot" "findBestEnterpriseAE (map ?d rs) q = Some (?d k)"
      by (auto split: if_splits)
    then have "routeLead (map ?d rs) q = Some (?d k)"
      using ne by (simp add: routeLead_def)
    ultimately show ?thesis using f3 Some
      by (intro exI [of _ res1] exI [of _ new1]) simp
  next
    case None
    from a have a1: "readArray ?h1 this = Some rs"
      by (simp add: readArray_Some readArray_old)
    from m have m1: "\<forall>r \<in> set rs. r < length (members ?h1)" by simp
    from routeLead_s_rest [OF a1 m1, of q] obtain res new
      where r: "(if companySize q = Some ENTERPRISE then findBestEnterpriseAE_s this q ?h1
          else
            (case (case industry q of
                     None \<Rightarrow> Some (None, ?h1)
                   | Some i \<Rightarrow> findIndustryExpert_s this i ?h1) of
               None \<Rightarrow> None
             | Some (Some industryExpert, h2) \<Rightarrow> Some (Some industryExpert, h2)
             | Some (None, h2) \<Rightarrow> findLeastBusyRep_s this h2))
           = Some (res, ?h1\<lparr>arrays := arrays ?h1 @ new\<rparr>)"
        and r2: "map_option (\<lambda>r. members ?h1 ! r) res =
           (if companySize q = Some ENTERPRISE
            then findBestEnterpriseAE (map (\<lambda>r. members ?h1 ! r) rs) q
            else
              (case (case industry q of
                       None \<Rightarrow> None
                     | Some i \<Rightarrow> findIndustryExpert (map (\<lambda>r. members ?h1 ! r) rs) i) of
                 Some industryExpert \<Rightarrow> Some industryExpert
               | None \<Rightarrow> findLeastBusyRep (map (\<lambda>r. members ?h1 ! r) rs)))"
        and r3: "\<forall>k. res = Some k \<longrightarrow> k \<in> set rs"
      by blast
    have "routeLead_s this q h = Some (res, ?h1\<lparr>arrays := arrays ?h1 @ new\<rparr>)"
      unfolding routeLead_s_def using a ne f None r by simp
    then have rl: "routeLead_s this q h = Some (res, h\<lparr>arrays := arrays h @ (new1 @ new)\<rparr>)"
      by simp
    from f2 None have "(if ?hot then findBestEnterpriseAE (map ?d rs) q else None) = None"
      by simp
    moreover have mh: "members ?h1 = members h" by simp
    ultimately have "map_option ?d res = routeLead (map ?d rs) q"
      using r2 [unfolded mh] ne by (simp add: routeLead_def)
    then show ?thesis using rl r3
      by (intro exI [of _ res] exI [of _ "new1 @ new"]) simp
  qed
qed

lemma getRoutingRecommendation_s_refines:
  assumes a: "readArray h this = Some rs" and m: "\<forall>r \<in> set rs. r < length (members h)"
  shows "\<exists>res why new.
     getRoutingRecommendation_s this q h = Some ((res, why), h\<lparr>arrays := arrays h @ new\<rparr>) \<and>
     map_option (\<lambda>r. members h ! r) res =
       assignedTo_rec (getRoutingRecommendation (map (\<lambda>r. members h ! r) rs) q) \<and>
     why = reason_rec (getRoutingRecommendation (map (\<lambda>r. members h ! r) rs) q)"
proof -
  let ?d = "\<lambda>r. members h ! r"
  from routeLead_s_refines [OF a m, of q] obtain res new
    where r: "routeLead_s this q h = Some (res, h\<lparr>arrays := arrays h @ new\<rparr>)"
      and r2: "map_option ?d res = routeLead (map ?d rs) q"
      and r3: "\<forall>k. res = Some k \<longrightarrow> k \<in> set rs"
    by blast
  show ?thesis
  proof (cases res)
    case None
    with r2 have "routeLead (map ?d rs) q = None" by simp
    with r None show ?thesis
      by (intro exI [of _ None] exI [of _ "''No sales team configured. Please assign manually.''"]
          exI [of _ new])
        (simp add: getRoutingRecommendation_s_def getRoutingRecommendation_def)
  next
    case (Some k)
    with r3 m have "readMember (h\<lparr>arrays := arrays h @ new\<rparr>) k = Some (?d k)"
      by (simp add: readMember_def)
    moreover from Some r2 have "routeLead (map ?d rs) q = Some (?d k)" by simp
    ultimately show ?thesis using r Some
      by (intro exI [of _ "Some k"] exI [of _ "recommendationReason q (?d k)"] exI [of _ new])
        (simp add: getRoutingRecommendation_s_def getRoutingRecommendation_def)
  qed
qed

text \<open>
  C7. For every qualification and every well-formed store, \<open>routeLead\<close> and
  \<open>getRoutingRecommendation\<close> return and leave the store as it was, but for new arrays
  (the results of \<open>filter\<close>) added behind the existing ones: every member object, with
  its \<open>currentLeadCount\<close> and all its other fields, and the team array itself are
  unchanged.
\<close>

theorem routing_leaves_store:
  assumes "wellFormed h this"
  shows "(\<exists>res new. routeLead_s this q h = Some (res, h\<lparr>arrays := arrays h @ new\<rparr>)) \<and>
     (\<exists>rec new. getRoutingRecommendation_s this q h = Some (rec, h\<lparr>arrays := arrays h @ new\<rparr>))"
proof -
  from assms have a: "readArray h this = Some (arrays h ! this)"
    and m: "\<forall>r \<in> set (arrays h ! this). r < length (members h)"
    by (simp_all add: wellFormed_def readArray_def list_all_iff)
  from routeLead_s_refines [OF a m, of q] getRoutingRecommendation_s_refines [OF a m, of q]
  show ?thesis by blast
qed

theorem routing_leaves_store_witness:
  "wellFormed defaultStore 0 \<and>
   (\<exists>res new. routeLead_s 0 hotTechnologyLead defaultStore
      = Some (res, defaultStore\<lparr>arrays := arrays defaultStore @ new\<rparr>)) \<and>
   (\<exists>rec new. getRoutingRecommendation_s 0 hotTechnologyLead defaultStore
      = Some (rec, defaultStore\<lparr>arrays := arrays defaultStore @ new\<rparr>))"
proof -
  have w: "wellFormed defaultStore 0"
    by (simp add: wellFormed_def defaultStore_def defaultSalesTeam_def)
  from routing_leaves_store [OF w, of hotTechnologyLead] w show ?thesis by blast
qed

text \<open>
  On the default team the hot technology lead of the spec's example goes to the member at
  address 0, and the one array added is the filter's list of the two enterprise AEs.
\<close>

lemma getRoutingRecommendation_s_default: "getRoutingRecommendation_s 0 hotTechnologyLead defaultStore =
   Some ((Some 0, ''Assigned to Sarah Chen (ENTERPRISE_AE) - Hot lead requires enterprise AE''),
         defaultStore\<lparr>arrays := arrays defaultStore @ [[0, 1]]\<rparr>)"
  by (simp add: getRoutingRecommendation_s_def routeLead_s_def findBestEnterpriseAE_s_def
      filter_s_def newArray_def readArray_def readMember_def recommendationReason_def
      hasIndustryMatch_def hasCapacity_def includesIndustry_def orZero_def
      defaultStore_def defaultSalesTeam_def hotTechnologyLead_def)

end
